theory Spec2Isabelle
  imports Complex_Main
begin

section \<open>JavaScript values\<close>

text \<open>
  The window state of \<^verbatim>\<open>src/index.js\<close> is a plain JavaScript object that comes out of a JSON
  file or a key-value store, so each of its properties can hold any value. Numbers are
  IEEE doubles in the source; here a finite number is a rational, with \<open>NaN\<close> and the two
  infinities beside it. Window and display coordinates are integers, on which the
  source's \<open>+\<close>, \<open>-\<close>, \<open>*\<close>, \<open>Math.min\<close> and \<open>Math.max\<close> are exact as long as the operands and
  the results stay below \<open>2^53\<close> in magnitude; the embedding computes them on \<open>int\<close>. The
  one division of the source (the visible fraction of a window) is the exact quotient
  here; its comparisons with \<open>0\<close>, with \<open>1\<close> and with another fraction of the same
  denominator have the same outcome on doubles in that range. Beyond that range a double
  rounds (\<open>2^53 + 1\<close> is \<open>2^53\<close>) and a product can overflow to \<open>Infinity\<close>, which the
  embedding does not follow: a theorem whose statement depends on a sum, a difference or a
  product being exact assumes that the rectangles it is about are in range (\<open>exactRect\<close>
  below). Negative zero is not told apart from zero.
\<close>

datatype jsnum = NaN | PosInf | NegInf | Fin rat

datatype jsval =
    JUndefined
  | JNull
  | JBool bool
  | JNum jsnum
  | JStr string
  | JObj

text \<open>Truthiness, as \<open>&&\<close>, \<open>||\<close> and \<open>if\<close> test it.\<close>

fun truthy :: "jsval \<Rightarrow> bool" where
  "truthy JUndefined = False"
| "truthy JNull = False"
| "truthy (JBool b) = b"
| "truthy (JNum n) = (n \<noteq> NaN \<and> n \<noteq> Fin 0)"
| "truthy (JStr s) = (s \<noteq> [])"
| "truthy JObj = True"

text \<open>\<open>a || b\<close>\<close>

definition js_or :: "jsval \<Rightarrow> jsval \<Rightarrow> jsval" where
  "js_or a b = (if truthy a then a else b)"

text \<open>\<open>a < b\<close> on numbers: every comparison with \<open>NaN\<close> is false.\<close>

fun js_lt :: "jsnum \<Rightarrow> jsnum \<Rightarrow> bool" where
  "js_lt (Fin a) (Fin b) = (a < b)"
| "js_lt (Fin a) PosInf = True"
| "js_lt NegInf (Fin b) = True"
| "js_lt NegInf PosInf = True"
| "js_lt _ _ = False"

definition js_gt :: "jsnum \<Rightarrow> jsnum \<Rightarrow> bool" where
  "js_gt a b = js_lt b a"

text \<open>
  \<open>a / b\<close> on two integers: \<open>0 / 0\<close> is \<open>NaN\<close>, a nonzero numerator over zero is an
  infinity (of the numerator's sign, the zero taken as positive), and nothing is raised.
\<close>

definition js_div :: "int \<Rightarrow> int \<Rightarrow> jsnum" where
  "js_div a b =
     (if b = 0 then (if a = 0 then NaN else if 0 < a then PosInf else NegInf)
      else Fin (of_int a / of_int b))"

fun Number_isInteger :: "jsval \<Rightarrow> bool" where
  "Number_isInteger (JNum (Fin q)) = (of_int \<lfloor>q\<rfloor> = q)"
| "Number_isInteger _ = False"

text \<open>The integer a value holds, when \<open>Number.isInteger\<close> accepts it.\<close>

fun intOf :: "jsval \<Rightarrow> int option" where
  "intOf (JNum (Fin q)) = (if of_int \<lfloor>q\<rfloor> = q then Some \<lfloor>q\<rfloor> else None)"
| "intOf _ = None"

definition num :: "int \<Rightarrow> jsval" where
  "num i = JNum (Fin (of_int i))"

section \<open>Data model\<close>

text \<open>
  A rectangle \<open>{x, y, width, height}\<close> of integers: the \<open>bounds\<close> of a display, the result of
  \<open>win.getBounds()\<close>, and the geometry of a state that \<open>hasBounds\<close> accepts.
\<close>

record rect =
  r_x :: int
  r_y :: int
  r_width :: int
  r_height :: int

text \<open>
  The \<open>state\<close> object. A property is \<open>None\<close> when the object does not have it, so that reading
  it gives \<open>undefined\<close> and \<open>Object.assign\<close> does not copy it. Only the six properties the
  source reads or writes are kept. A loaded value that is truthy but not an object (a
  number, a string, \<open>true\<close>) has none of them and stands here as the record with every
  property absent; \<open>validateState\<close> discards it like that record.
\<close>

record wstate =
  s_x :: "jsval option"
  s_y :: "jsval option"
  s_width :: "jsval option"
  s_height :: "jsval option"
  s_isMaximized :: "jsval option"
  s_isFullScreen :: "jsval option"

text \<open>Reading a property: \<open>state.x\<close>.\<close>

fun getProp :: "jsval option \<Rightarrow> jsval" where
  "getProp None = JUndefined"
| "getProp (Some v) = v"

text \<open>The options after \<open>Object.assign\<close> with the defaults \<open>maximize: true, fullScreen: true\<close>.\<close>

record config =
  defaultWidth :: jsval
  defaultHeight :: jsval
  maximize :: jsval
  fullScreen :: jsval

section \<open>Validation and reconciliation with the displays\<close>

text \<open>\<open>v > 0\<close>, evaluated by \<open>hasBounds\<close> only after \<open>Number.isInteger(v)\<close> held.\<close>

fun gt0 :: "jsval \<Rightarrow> bool" where
  "gt0 (JNum n) = js_gt n (Fin 0)"
| "gt0 _ = False"

definition hasBounds :: "wstate \<Rightarrow> bool" where
  "hasBounds st =
     (Number_isInteger (getProp (s_x st)) \<and>
      Number_isInteger (getProp (s_y st)) \<and>
      Number_isInteger (getProp (s_width st)) \<and> gt0 (getProp (s_width st)) \<and>
      Number_isInteger (getProp (s_height st)) \<and> gt0 (getProp (s_height st)))"

definition resetStateToDefault :: "config \<Rightarrow> wstate" where
  "resetStateToDefault cfg =
     \<lparr> s_x = Some (num 0),
       s_y = Some (num 0),
       s_width = Some (js_or (defaultWidth cfg) (num 800)),
       s_height = Some (js_or (defaultHeight cfg) (num 600)),
       s_isMaximized = None,
       s_isFullScreen = None \<rparr>"

text \<open>
  The geometry functions of the source read and write \<open>state.x\<close>, \<open>state.y\<close>, \<open>state.width\<close>
  and \<open>state.height\<close>; they are written here on the rectangle of those four integers.
\<close>

definition moveWithinBounds :: "rect \<Rightarrow> rect \<Rightarrow> rect" where
  "moveWithinBounds bounds st =
     (let w = min (r_width st) (r_width bounds);
          x = (if r_x st < r_x bounds then r_x bounds
               else if r_x st + w > r_x bounds + r_width bounds
                    then r_x bounds + r_width bounds - w
                    else r_x st);
          h = min (r_height st) (r_height bounds);
          y = (if r_y st < r_y bounds then r_y bounds
               else if r_y st + h > r_y bounds + r_height bounds
                    then r_y bounds + r_height bounds - h
                    else r_y st)
      in \<lparr> r_x = x, r_y = y, r_width = w, r_height = h \<rparr>)"

definition visibleWidth :: "rect \<Rightarrow> rect \<Rightarrow> int" where
  "visibleWidth st bounds =
     max 0 (min (r_x st + r_width st) (r_x bounds + r_width bounds) - max (r_x st) (r_x bounds))"

definition visibleHeight :: "rect \<Rightarrow> rect \<Rightarrow> int" where
  "visibleHeight st bounds =
     max 0 (min (r_y st + r_height st) (r_y bounds + r_height bounds) - max (r_y st) (r_y bounds))"

definition partOfWindowWithinBounds :: "rect \<Rightarrow> rect \<Rightarrow> jsnum" where
  "partOfWindowWithinBounds st bounds =
     js_div (visibleWidth st bounds * visibleHeight st bounds) (r_width st * r_height st)"

text \<open>The four geometry properties as integers, when all four are integers.\<close>

definition rectOf :: "wstate \<Rightarrow> rect option" where
  "rectOf st =
     (case (intOf (getProp (s_x st)), intOf (getProp (s_y st)),
            intOf (getProp (s_width st)), intOf (getProp (s_height st))) of
        (Some x, Some y, Some w, Some h) \<Rightarrow>
          Some \<lparr> r_x = x, r_y = y, r_width = w, r_height = h \<rparr>
      | _ \<Rightarrow> None)"

definition setRect :: "rect \<Rightarrow> wstate \<Rightarrow> wstate" where
  "setRect r st =
     st \<lparr> s_x := Some (num (r_x r)), s_y := Some (num (r_y r)),
          s_width := Some (num (r_width r)), s_height := Some (num (r_height r)) \<rparr>"

text \<open>
  One round of the \<open>forEach\<close> over \<open>screen.getAllDisplays()\<close>; a display stands as its
  \<open>bounds\<close>, and the accumulator is the pair \<open>(bestBounds, bestVisibility)\<close>.
\<close>

definition bestStep :: "rect \<Rightarrow> rect \<Rightarrow> rect option \<times> jsnum \<Rightarrow> rect option \<times> jsnum" where
  "bestStep st display acc =
     (let visibility = partOfWindowWithinBounds st display
      in if js_gt visibility (snd acc) then (Some display, visibility) else acc)"

definition bestDisplay :: "rect list \<Rightarrow> rect \<Rightarrow> rect option \<times> jsnum" where
  "bestDisplay displays st = fold (bestStep st) displays (None, Fin 0)"

text \<open>
  \<open>ensureWindowVisibleOnSomeDisplay\<close> is called by \<open>validateState\<close> only, and only when
  \<open>hasBounds()\<close> holds. Its arithmetic is modelled on integer geometry: the result is
  \<open>None\<close> on a state whose four geometry properties are not all integers, which the source
  never passes to it (\<open>ensure_defined\<close> below).
\<close>

definition ensureWindowVisibleOnSomeDisplay :: "config \<Rightarrow> rect list \<Rightarrow> wstate \<Rightarrow> wstate option" where
  "ensureWindowVisibleOnSomeDisplay cfg displays st =
     (case rectOf st of
        None \<Rightarrow> None
      | Some r \<Rightarrow>
          (case bestDisplay displays r of
             (Some bestBounds, bestVisibility) \<Rightarrow>
               if js_lt bestVisibility (Fin 1)
               then Some (setRect (moveWithinBounds bestBounds r) st)
               else Some st
           | (None, _) \<Rightarrow> Some (resetStateToDefault cfg)))"

text \<open>
  \<open>validateState\<close>: the variable \<open>state\<close> before and after, \<open>None\<close> for \<open>null\<close>, \<open>undefined\<close>
  and the other falsy values.
\<close>

definition isValid :: "wstate \<Rightarrow> bool" where
  "isValid st =
     (hasBounds st \<or> truthy (getProp (s_isMaximized st)) \<or> truthy (getProp (s_isFullScreen st)))"

definition validateState :: "config \<Rightarrow> rect list \<Rightarrow> wstate option \<Rightarrow> wstate option" where
  "validateState cfg displays state =
     (case state of
        None \<Rightarrow> None
      | Some st \<Rightarrow>
          if \<not> isValid st then None
          else if hasBounds st then ensureWindowVisibleOnSomeDisplay cfg displays st
          else Some st)"

text \<open>
  \<open>Object.assign({width: config.defaultWidth || 800, height: config.defaultHeight || 600}, state)\<close>:
  every property the state has overwrites the fallback.
\<close>

definition withFallback :: "config \<Rightarrow> wstate option \<Rightarrow> wstate" where
  "withFallback cfg state =
     (case state of
        None \<Rightarrow>
          \<lparr> s_x = None, s_y = None,
            s_width = Some (js_or (defaultWidth cfg) (num 800)),
            s_height = Some (js_or (defaultHeight cfg) (num 600)),
            s_isMaximized = None, s_isFullScreen = None \<rparr>
      | Some st \<Rightarrow>
          st \<lparr> s_width := (case s_width st of
                              None \<Rightarrow> Some (js_or (defaultWidth cfg) (num 800))
                            | Some v \<Rightarrow> Some v),
               s_height := (case s_height st of
                              None \<Rightarrow> Some (js_or (defaultHeight cfg) (num 600))
                            | Some v \<Rightarrow> Some v) \<rparr>)"

text \<open>
  The body of the exported function up to its \<open>return\<close>: \<open>loaded\<close> is what the store or the
  file gave (\<open>None\<close> when the read threw or gave nothing), \<open>displays\<close> is
  \<open>screen.getAllDisplays()\<close>. The result is the \<open>state\<close> the accessors read.
\<close>

definition initialState :: "config \<Rightarrow> rect list \<Rightarrow> wstate option \<Rightarrow> wstate" where
  "initialState cfg displays loaded = withFallback cfg (validateState cfg displays loaded)"

section \<open>The managed window\<close>

text \<open>
  A window handle is a number; \<open>windows\<close> maps it to what the controller can observe of the
  window and do to it. \<open>w_destroyed\<close> says that the native window is gone, so that
  \<open>getBounds\<close>, \<open>isMaximized\<close>, \<open>maximize\<close> and the like throw. The listener list is the
  window's \<open>EventEmitter\<close>: \<open>on\<close> appends, also a listener that is already there, and
  \<open>removeListener\<close> drops the most recently added instance; both work on a destroyed
  window, as \<open>closedHandler\<close> relies on. \<open>w_requests\<close> records the calls of \<open>maximize()\<close> and
  \<open>setFullScreen(true)\<close> the controller made; how the platform reacts is not part of the
  source.
\<close>

datatype event = Resize | Move | Close | Closed

datatype handler = StateChangeHandler | CloseHandler | ClosedHandler

datatype request = Maximize | SetFullScreen bool

record window =
  w_bounds :: rect
  w_isMaximized :: bool
  w_isMinimized :: bool
  w_isFullScreen :: bool
  w_destroyed :: bool
  w_listeners :: "(event \<times> handler) list"
  w_requests :: "request list"

text \<open>
  The variables of the closure (\<open>state\<close>, \<open>winRef\<close>, \<open>stateChangeTimer\<close>) and the part of the
  environment the controller acts on: the windows, and the timers it has set that are
  still pending (each of them calls \<open>updateState\<close> with no argument). \<open>state\<close> is an object
  from the end of the initialisation on.
\<close>

record machine =
  state :: wstate
  winRef :: "nat option"
  stateChangeTimer :: "nat option"
  windows :: "nat \<Rightarrow> window"
  timers :: "nat list"
  nextTimer :: nat

definition isNormal :: "window \<Rightarrow> bool" where
  "isNormal win = (\<not> w_isMaximized win \<and> \<not> w_isMinimized win \<and> \<not> w_isFullScreen win)"

text \<open>
  \<open>updateState(win)\<close>: the argument is \<open>None\<close> when the caller passes none. On a destroyed
  window \<open>getBounds()\<close> throws, the \<open>catch\<close> swallows it and nothing has been written.
\<close>

definition updateState :: "nat option \<Rightarrow> machine \<Rightarrow> machine" where
  "updateState win m =
     (case (case win of Some h \<Rightarrow> Some h | None \<Rightarrow> winRef m) of
        None \<Rightarrow> m
      | Some h \<Rightarrow>
          if w_destroyed (windows m h) then m
          else
            (let winBounds = w_bounds (windows m h);
                 st = (if isNormal (windows m h) then setRect winBounds (state m) else state m)
             in m \<lparr> state := st \<lparr> s_isMaximized := Some (JBool (w_isMaximized (windows m h))),
                                    s_isFullScreen := Some (JBool (w_isFullScreen (windows m h))) \<rparr> \<rparr>))"

definition clearTimeout :: "nat option \<Rightarrow> machine \<Rightarrow> machine" where
  "clearTimeout t m =
     (case t of None \<Rightarrow> m | Some i \<Rightarrow> m \<lparr> timers := removeAll i (timers m) \<rparr>)"

definition stateChangeHandler :: "machine \<Rightarrow> machine" where
  "stateChangeHandler m =
     (let m1 = clearTimeout (stateChangeTimer m) m
      in m1 \<lparr> timers := timers m1 @ [nextTimer m1],
              stateChangeTimer := Some (nextTimer m1),
              nextTimer := Suc (nextTimer m1) \<rparr>)"

definition closeHandler :: "machine \<Rightarrow> machine" where
  "closeHandler m = updateState None m"

text \<open>A pending timer comes due: it leaves the pending ones and its callback runs.\<close>

definition fireTimer :: "nat \<Rightarrow> machine \<Rightarrow> machine" where
  "fireTimer t m =
     (if t \<in> set (timers m) then updateState None (m \<lparr> timers := removeAll t (timers m) \<rparr>)
      else m)"

definition runTimers :: "machine \<Rightarrow> machine" where
  "runTimers m = fold fireTimer (timers m) m"

definition on :: "nat \<Rightarrow> event \<Rightarrow> handler \<Rightarrow> machine \<Rightarrow> machine" where
  "on h ev f m =
     m \<lparr> windows := (windows m)
            (h := (windows m h) \<lparr> w_listeners := w_listeners (windows m h) @ [(ev, f)] \<rparr>) \<rparr>"

definition removeLast :: "'a \<Rightarrow> 'a list \<Rightarrow> 'a list" where
  "removeLast a xs = rev (remove1 a (rev xs))"

definition removeListener :: "nat \<Rightarrow> event \<Rightarrow> handler \<Rightarrow> machine \<Rightarrow> machine" where
  "removeListener h ev f m =
     m \<lparr> windows := (windows m)
            (h := (windows m h) \<lparr> w_listeners := removeLast (ev, f) (w_listeners (windows m h)) \<rparr>) \<rparr>"

definition sendRequest :: "nat \<Rightarrow> request \<Rightarrow> machine \<Rightarrow> machine" where
  "sendRequest h q m =
     m \<lparr> windows := (windows m)
            (h := (windows m h) \<lparr> w_requests := w_requests (windows m h) @ [q] \<rparr>) \<rparr>"

text \<open>
  \<open>manage(win)\<close>. The result is \<open>None\<close> when \<open>win.maximize()\<close> or \<open>win.setFullScreen(true)\<close>
  is called on a destroyed window: the call throws, \<open>manage\<close> does not catch it, and nothing
  has been changed by then.
\<close>

definition manage :: "config \<Rightarrow> nat \<Rightarrow> machine \<Rightarrow> machine option" where
  "manage cfg win m =
     (let restoreMaximize = (truthy (maximize cfg) \<and> truthy (getProp (s_isMaximized (state m))));
          restoreFullScreen = (truthy (fullScreen cfg) \<and> truthy (getProp (s_isFullScreen (state m))))
      in if (restoreMaximize \<or> restoreFullScreen) \<and> w_destroyed (windows m win) then None
         else
           (let m1 = (if restoreMaximize then sendRequest win Maximize m else m);
                m2 = (if restoreFullScreen then sendRequest win (SetFullScreen True) m1 else m1);
                m3 = on win Resize StateChangeHandler m2;
                m4 = on win Move StateChangeHandler m3;
                m5 = on win Close CloseHandler m4;
                m6 = on win Closed ClosedHandler m5
            in Some (m6 \<lparr> winRef := Some win \<rparr>)))"

definition unmanage :: "machine \<Rightarrow> machine" where
  "unmanage m =
     (case winRef m of
        None \<Rightarrow> m
      | Some h \<Rightarrow>
          (let m1 = removeListener h Resize StateChangeHandler m;
               m2 = removeListener h Move StateChangeHandler m1;
               m3 = clearTimeout (stateChangeTimer m2) m2;
               m4 = removeListener h Close CloseHandler m3;
               m5 = removeListener h Closed ClosedHandler m4
           in m5 \<lparr> winRef := None \<rparr>))"

text \<open>
  A \<open>resize\<close> or \<open>move\<close> event on window \<open>h\<close>, where \<open>stateChangeHandler\<close> listens once: the
  platform has given the window the bounds \<open>b\<close>, then the listener runs.
\<close>

definition windowMoved :: "nat \<Rightarrow> rect \<Rightarrow> machine \<Rightarrow> machine" where
  "windowMoved h b m =
     stateChangeHandler (m \<lparr> windows := (windows m) (h := (windows m h) \<lparr> w_bounds := b \<rparr>) \<rparr>)"

section \<open>Auxiliary notions\<close>

text \<open>The visible fraction of a rectangle of positive area, as a rational.\<close>

definition visibleFraction :: "rect \<Rightarrow> rect \<Rightarrow> rat" where
  "visibleFraction st bounds =
     of_int (visibleWidth st bounds * visibleHeight st bounds) / of_int (r_width st * r_height st)"

text \<open>
  \<open>Number.isSafeInteger\<close>: an integer of magnitude below \<open>2^53\<close>. A rectangle is in range
  when its coordinates, its sizes, its right and bottom edges and its area are safe
  integers. For a state and bounds in range, with sizes that are not negative, every
  value \<open>partOfWindowWithinBounds\<close> and \<open>moveWithinBounds\<close> compute on the way is a safe
  integer or a negative difference that \<open>Math.max(0, _)\<close> replaces by \<open>0\<close>, so that the
  doubles of the source hold exactly the integers of the embedding.
\<close>

definition safeInteger :: "int \<Rightarrow> bool" where
  "safeInteger i = (- (2 ^ 53) < i \<and> i < 2 ^ 53)"

definition exactRect :: "rect \<Rightarrow> bool" where
  "exactRect r =
     (safeInteger (r_x r) \<and> safeInteger (r_y r) \<and>
      safeInteger (r_width r) \<and> safeInteger (r_height r) \<and>
      safeInteger (r_x r + r_width r) \<and> safeInteger (r_y r + r_height r) \<and>
      safeInteger (r_width r * r_height r))"

text \<open>
  The controller has no pending timer but the one \<open>stateChangeTimer\<close> names. This holds when
  the controller is created and every operation keeps it.
\<close>

definition pendingInv :: "machine \<Rightarrow> bool" where
  "pendingInv m = (set (timers m) \<subseteq> set_option (stateChangeTimer m))"

text \<open>The listeners \<open>manage\<close> subscribes, in its order.\<close>

definition managedListeners :: "(event \<times> handler) list" where
  "managedListeners =
     [(Resize, StateChangeHandler), (Move, StateChangeHandler),
      (Close, CloseHandler), (Closed, ClosedHandler)]"

text \<open>Values for the examples.\<close>

abbreviation noOptions :: config where
  "noOptions \<equiv> \<lparr> defaultWidth = JUndefined, defaultHeight = JUndefined,
                  maximize = JBool True, fullScreen = JBool True \<rparr>"

abbreviation geometry :: "int \<Rightarrow> int \<Rightarrow> int \<Rightarrow> int \<Rightarrow> wstate" where
  "geometry x y w h \<equiv>
     \<lparr> s_x = Some (num x), s_y = Some (num y), s_width = Some (num w), s_height = Some (num h),
       s_isMaximized = None, s_isFullScreen = None \<rparr>"

abbreviation rectangle :: "int \<Rightarrow> int \<Rightarrow> int \<Rightarrow> int \<Rightarrow> rect" where
  "rectangle x y w h \<equiv> \<lparr> r_x = x, r_y = y, r_width = w, r_height = h \<rparr>"

abbreviation plainWindow :: "rect \<Rightarrow> window" where
  "plainWindow b \<equiv>
     \<lparr> w_bounds = b, w_isMaximized = False, w_isMinimized = False, w_isFullScreen = False,
       w_destroyed = False, w_listeners = [], w_requests = [] \<rparr>"

abbreviation maximizedWindow :: window where
  "maximizedWindow \<equiv>
     \<lparr> w_bounds = rectangle 0 0 1920 1080, w_isMaximized = True, w_isMinimized = False,
       w_isFullScreen = False, w_destroyed = False, w_listeners = [], w_requests = [] \<rparr>"

abbreviation freshMachine :: "wstate \<Rightarrow> machine" where
  "freshMachine st \<equiv>
     \<lparr> state = st, winRef = None, stateChangeTimer = None,
       windows = (\<lambda>h. plainWindow (rectangle 0 0 800 600)), timers = [], nextTimer = 0 \<rparr>"

section \<open>Integer geometry of a state\<close>

lemma intOf_num [simp]: "intOf (num i) = Some i"
  by (simp add: num_def)

lemma intOf_Some: "intOf v = Some i \<Longrightarrow> v = num i"
  by (cases v rule: intOf.cases) (auto simp: num_def split: if_splits)

lemma isInteger_intOf: "Number_isInteger v \<longleftrightarrow> intOf v \<noteq> None"
  by (cases v rule: intOf.cases) auto

lemma gt0_num [simp]: "gt0 (num i) \<longleftrightarrow> 0 < i"
  by (simp add: num_def js_gt_def)

lemma getProp_eq_num: "getProp p = num i \<Longrightarrow> p = Some (num i)"
  by (cases p) (auto simp: num_def)

lemma rectOf_Some:
  "rectOf st = Some r \<longleftrightarrow>
     s_x st = Some (num (r_x r)) \<and> s_y st = Some (num (r_y r)) \<and>
     s_width st = Some (num (r_width r)) \<and> s_height st = Some (num (r_height r))"
proof
  assume "rectOf st = Some r"
  then obtain x y w h where i: "intOf (getProp (s_x st)) = Some x" "intOf (getProp (s_y st)) = Some y"
     "intOf (getProp (s_width st)) = Some w" "intOf (getProp (s_height st)) = Some h"
     and r: "r = \<lparr> r_x = x, r_y = y, r_width = w, r_height = h \<rparr>"
    by (auto simp: rectOf_def split: option.splits)
  from i show "s_x st = Some (num (r_x r)) \<and> s_y st = Some (num (r_y r)) \<and>
     s_width st = Some (num (r_width r)) \<and> s_height st = Some (num (r_height r))"
    by (simp add: r getProp_eq_num intOf_Some)
next
  assume "s_x st = Some (num (r_x r)) \<and> s_y st = Some (num (r_y r)) \<and>
     s_width st = Some (num (r_width r)) \<and> s_height st = Some (num (r_height r))"
  then show "rectOf st = Some r" by (simp add: rectOf_def)
qed

lemma hasBounds_iff:
  "hasBounds st \<longleftrightarrow> (\<exists>r. rectOf st = Some r \<and> 0 < r_width r \<and> 0 < r_height r)"
proof
  assume h: "hasBounds st"
  then obtain x y w h where i: "intOf (getProp (s_x st)) = Some x" "intOf (getProp (s_y st)) = Some y"
     "intOf (getProp (s_width st)) = Some w" "intOf (getProp (s_height st)) = Some h"
    by (auto simp: hasBounds_def isInteger_intOf)
  then have r: "rectOf st = Some \<lparr> r_x = x, r_y = y, r_width = w, r_height = h \<rparr>"
    by (simp add: rectOf_def)
  from i have "getProp (s_width st) = num w" "getProp (s_height st) = num h"
    by (simp_all add: intOf_Some)
  with h have "0 < w" "0 < h" by (simp_all add: hasBounds_def)
  with r show "\<exists>r. rectOf st = Some r \<and> 0 < r_width r \<and> 0 < r_height r" by simp
next
  assume "\<exists>r. rectOf st = Some r \<and> 0 < r_width r \<and> 0 < r_height r"
  then obtain r where "rectOf st = Some r" "0 < r_width r" "0 < r_height r" by blast
  then show "hasBounds st"
    by (simp add: rectOf_Some hasBounds_def isInteger_intOf)
qed

lemma setRect_same: "rectOf st = Some r \<Longrightarrow> setRect r st = st"
  by (simp add: rectOf_Some setRect_def)

lemma rectOf_setRect [simp]: "rectOf (setRect r st) = Some r"
  by (simp add: rectOf_Some setRect_def)

lemma hasBounds_geometry: "hasBounds (geometry x y w h) \<longleftrightarrow> 0 < w \<and> 0 < h"
  by (simp add: hasBounds_def isInteger_intOf)

lemma rectOf_geometry: "rectOf (geometry x y w h) = Some (rectangle x y w h)"
  by (simp add: rectOf_def)

section \<open>Overlap and the choice of the best display\<close>

lemma visibleWidth_nonneg: "0 \<le> visibleWidth r b"
  by (simp add: visibleWidth_def)

lemma visibleHeight_nonneg: "0 \<le> visibleHeight r b"
  by (simp add: visibleHeight_def)

lemma visibleWidth_le: "0 \<le> r_width r \<Longrightarrow> visibleWidth r b \<le> r_width r"
  by (simp add: visibleWidth_def)

lemma visibleHeight_le: "0 \<le> r_height r \<Longrightarrow> visibleHeight r b \<le> r_height r"
  by (simp add: visibleHeight_def)

lemma visibleWidth_le_bounds: "0 \<le> r_width b \<Longrightarrow> visibleWidth r b \<le> r_width b"
  by (simp add: visibleWidth_def)

lemma visibleHeight_le_bounds: "0 \<le> r_height b \<Longrightarrow> visibleHeight r b \<le> r_height b"
  by (simp add: visibleHeight_def)

lemma visibleWidth_inside:
  "r_x b \<le> r_x r \<Longrightarrow> r_x r + r_width r \<le> r_x b + r_width b \<Longrightarrow> 0 \<le> r_width r \<Longrightarrow>
   visibleWidth r b = r_width r"
  by (simp add: visibleWidth_def)

lemma visibleHeight_inside:
  "r_y b \<le> r_y r \<Longrightarrow> r_y r + r_height r \<le> r_y b + r_height b \<Longrightarrow> 0 \<le> r_height r \<Longrightarrow>
   visibleHeight r b = r_height r"
  by (simp add: visibleHeight_def)

lemma partOf_positive_area:
  "0 < r_width r \<Longrightarrow> 0 < r_height r \<Longrightarrow>
   partOfWindowWithinBounds r b = Fin (visibleFraction r b)"
  by (simp add: partOfWindowWithinBounds_def js_div_def visibleFraction_def)

lemma visibleFraction_nonneg:
  "0 < r_width r \<Longrightarrow> 0 < r_height r \<Longrightarrow> 0 \<le> visibleFraction r b"
  unfolding visibleFraction_def
  by (intro divide_nonneg_nonneg) (simp_all add: visibleWidth_nonneg visibleHeight_nonneg)

lemma visibleFraction_le_1:
  assumes "0 < r_width r" "0 < r_height r"
  shows "visibleFraction r b \<le> 1"
proof -
  have "visibleWidth r b * visibleHeight r b \<le> r_width r * r_height r"
    using assms by (intro mult_mono visibleWidth_le visibleHeight_le visibleHeight_nonneg) simp_all
  then have "(of_int (visibleWidth r b * visibleHeight r b) :: rat) \<le> of_int (r_width r * r_height r)"
    by (simp only: of_int_le_iff)
  moreover have "(0::rat) < of_int (r_width r * r_height r)"
    using assms by simp
  ultimately show ?thesis
    unfolding visibleFraction_def by (simp only: divide_le_eq_1_pos)
qed

lemma visibleFraction_inside:
  assumes "0 < r_width r" "0 < r_height r"
    and "r_x b \<le> r_x r" "r_x r + r_width r \<le> r_x b + r_width b"
    and "r_y b \<le> r_y r" "r_y r + r_height r \<le> r_y b + r_height b"
  shows "visibleFraction r b = 1"
proof -
  have "visibleWidth r b = r_width r" "visibleHeight r b = r_height r"
    using assms by (simp_all add: visibleWidth_inside visibleHeight_inside)
  then show ?thesis using assms by (simp add: visibleFraction_def)
qed

lemma visibleFraction_pos_bounds:
  assumes "0 < r_width r" "0 < r_height r" "0 < visibleFraction r b"
  shows "0 < r_width b \<and> 0 < r_height b"
proof -
  have nz: "visibleWidth r b * visibleHeight r b \<noteq> 0"
    using assms(3) by (auto simp: visibleFraction_def)
  have "r_width b \<le> 0 \<Longrightarrow> visibleWidth r b = 0" "r_height b \<le> 0 \<Longrightarrow> visibleHeight r b = 0"
    by (simp_all add: visibleWidth_def visibleHeight_def)
  with nz show ?thesis
    by (auto simp: not_le [symmetric])
qed

lemma bestStep_positive_area:
  "0 < r_width r \<Longrightarrow> 0 < r_height r \<Longrightarrow>
   bestStep r d (b0, Fin q0) =
     (if q0 < visibleFraction r d then (Some d, Fin (visibleFraction r d)) else (b0, Fin q0))"
  by (simp add: bestStep_def partOf_positive_area js_gt_def)

lemma fold_bestStep:
  assumes "0 < r_width r" "0 < r_height r"
  shows "\<exists>bb q. fold (bestStep r) ds (b0, Fin q0) = (bb, Fin q) \<and> q0 \<le> q \<and>
           (\<forall>d\<in>set ds. visibleFraction r d \<le> q) \<and>
           ((bb = b0 \<and> q = q0) \<or> (\<exists>b\<in>set ds. bb = Some b \<and> visibleFraction r b = q \<and> q0 < q))"
proof (induction ds arbitrary: b0 q0)
  case Nil
  show ?case by simp
next
  case (Cons d ds)
  show ?case
  proof (cases "q0 < visibleFraction r d")
    case True
    from Cons.IH [of "Some d" "visibleFraction r d"] obtain bb q where
      f: "fold (bestStep r) ds (Some d, Fin (visibleFraction r d)) = (bb, Fin q)"
      and q: "visibleFraction r d \<le> q" and all: "\<forall>e\<in>set ds. visibleFraction r e \<le> q"
      and c: "(bb = Some d \<and> q = visibleFraction r d) \<or>
              (\<exists>b\<in>set ds. bb = Some b \<and> visibleFraction r b = q \<and> visibleFraction r d < q)"
      by blast
    have "fold (bestStep r) (d # ds) (b0, Fin q0) = (bb, Fin q)"
      using True f assms by (simp add: bestStep_positive_area)
    moreover have "q0 \<le> q" "q0 < q" using True q by simp_all
    moreover have "\<forall>e\<in>set (d # ds). visibleFraction r e \<le> q" using q all by simp
    moreover have "\<exists>b\<in>set (d # ds). bb = Some b \<and> visibleFraction r b = q"
      using c by auto
    ultimately show ?thesis by blast
  next
    case False
    from Cons.IH [of b0 q0] obtain bb q where
      f: "fold (bestStep r) ds (b0, Fin q0) = (bb, Fin q)"
      and q: "q0 \<le> q" and all: "\<forall>e\<in>set ds. visibleFraction r e \<le> q"
      and c: "(bb = b0 \<and> q = q0) \<or> (\<exists>b\<in>set ds. bb = Some b \<and> visibleFraction r b = q \<and> q0 < q)"
      by blast
    have "fold (bestStep r) (d # ds) (b0, Fin q0) = (bb, Fin q)"
      using False f assms by (simp add: bestStep_positive_area)
    moreover have "\<forall>e\<in>set (d # ds). visibleFraction r e \<le> q" using q all False by simp
    moreover have "(bb = b0 \<and> q = q0) \<or>
        (\<exists>b\<in>set (d # ds). bb = Some b \<and> visibleFraction r b = q \<and> q0 < q)"
      using c by auto
    ultimately show ?thesis using q by blast
  qed
qed

lemma bestDisplay_cases:
  assumes "0 < r_width r" "0 < r_height r"
  shows "(bestDisplay ds r = (None, Fin 0) \<and> (\<forall>d\<in>set ds. visibleFraction r d \<le> 0)) \<or>
         (\<exists>b q. bestDisplay ds r = (Some b, Fin q) \<and> b \<in> set ds \<and> visibleFraction r b = q \<and>
                0 < q \<and> q \<le> 1 \<and> (\<forall>d\<in>set ds. visibleFraction r d \<le> q))"
proof -
  from fold_bestStep [OF assms, of ds None 0] obtain bb q where
    f: "bestDisplay ds r = (bb, Fin q)" and all: "\<forall>d\<in>set ds. visibleFraction r d \<le> q"
    and c: "(bb = None \<and> q = 0) \<or> (\<exists>b\<in>set ds. bb = Some b \<and> visibleFraction r b = q \<and> 0 < q)"
    unfolding bestDisplay_def by blast
  from c show ?thesis
  proof
    assume "bb = None \<and> q = 0"
    with f all show ?thesis by simp
  next
    assume "\<exists>b\<in>set ds. bb = Some b \<and> visibleFraction r b = q \<and> 0 < q"
    then obtain b where b: "b \<in> set ds" "bb = Some b" "visibleFraction r b = q" "0 < q" by blast
    then have "q \<le> 1" using visibleFraction_le_1 [OF assms, of b] by simp
    with f all b show ?thesis by blast
  qed
qed

lemma ensure_contained:
  assumes r: "rectOf st = Some r" and pos: "0 < r_width r" "0 < r_height r"
    and d: "d \<in> set ds"
    and ins: "r_x d \<le> r_x r" "r_x r + r_width r \<le> r_x d + r_width d"
             "r_y d \<le> r_y r" "r_y r + r_height r \<le> r_y d + r_height d"
  shows "ensureWindowVisibleOnSomeDisplay cfg ds st = Some st"
proof -
  have one: "visibleFraction r d = 1" using pos ins by (rule visibleFraction_inside)
  consider (invisible) "\<forall>d\<in>set ds. visibleFraction r d \<le> 0"
    | (visible) b q where "bestDisplay ds r = (Some b, Fin q)" "q \<le> 1"
        "\<forall>d\<in>set ds. visibleFraction r d \<le> q"
    using bestDisplay_cases [OF pos, of ds] by blast
  then show ?thesis
  proof cases
    case invisible
    with d one show ?thesis by auto
  next
    case (visible b q)
    with d one have "q = 1" by auto
    with visible r show ?thesis by (simp add: ensureWindowVisibleOnSomeDisplay_def)
  qed
qed

lemma moveWithinBounds_inside:
  assumes "0 \<le> r_width r" "0 \<le> r_height r" "0 \<le> r_width b" "0 \<le> r_height b"
  shows "r_x b \<le> r_x (moveWithinBounds b r)"
    and "r_x (moveWithinBounds b r) + r_width (moveWithinBounds b r) \<le> r_x b + r_width b"
    and "r_y b \<le> r_y (moveWithinBounds b r)"
    and "r_y (moveWithinBounds b r) + r_height (moveWithinBounds b r) \<le> r_y b + r_height b"
    and "r_width (moveWithinBounds b r) \<le> r_width b"
    and "r_height (moveWithinBounds b r) \<le> r_height b"
    and "r_x (moveWithinBounds b r) \<le> r_x b + r_width b"
    and "r_x b \<le> r_x (moveWithinBounds b r) + r_width (moveWithinBounds b r)"
    and "r_y (moveWithinBounds b r) \<le> r_y b + r_height b"
    and "r_y b \<le> r_y (moveWithinBounds b r) + r_height (moveWithinBounds b r)"
  using assms by (auto simp: moveWithinBounds_def Let_def min_def)

lemma moveWithinBounds_size:
  "r_width (moveWithinBounds b r) = min (r_width r) (r_width b)"
  "r_height (moveWithinBounds b r) = min (r_height r) (r_height b)"
  by (simp_all add: moveWithinBounds_def Let_def)

lemma exactRect_rectangle:
  "exactRect (rectangle x y w h) \<longleftrightarrow>
     safeInteger x \<and> safeInteger y \<and> safeInteger w \<and> safeInteger h \<and>
     safeInteger (x + w) \<and> safeInteger (y + h) \<and> safeInteger (w * h)"
  by (simp add: exactRect_def)

lemma safeInteger_between: "safeInteger a \<Longrightarrow> safeInteger b \<Longrightarrow> a \<le> i \<Longrightarrow> i \<le> b \<Longrightarrow> safeInteger i"
  by (simp add: safeInteger_def)

lemma visibleWidth_safe:
  assumes "0 \<le> r_width r" and "safeInteger (r_width r)"
  shows "safeInteger (visibleWidth r b)"
proof -
  have "safeInteger 0" by (simp add: safeInteger_def)
  then show ?thesis
    using assms(2) visibleWidth_nonneg visibleWidth_le [OF assms(1)] by (rule safeInteger_between)
qed

lemma visibleHeight_safe:
  assumes "0 \<le> r_height r" and "safeInteger (r_height r)"
  shows "safeInteger (visibleHeight r b)"
proof -
  have "safeInteger 0" by (simp add: safeInteger_def)
  then show ?thesis
    using assms(2) visibleHeight_nonneg visibleHeight_le [OF assms(1)] by (rule safeInteger_between)
qed

lemma visibleArea_safe:
  assumes "0 \<le> r_width r" and "0 \<le> r_height r" and "safeInteger (r_width r * r_height r)"
  shows "safeInteger (visibleWidth r b * visibleHeight r b)"
proof -
  have "visibleWidth r b * visibleHeight r b \<le> r_width r * r_height r"
    using assms(1,2)
    by (intro mult_mono visibleWidth_le visibleHeight_le visibleHeight_nonneg) simp_all
  moreover have "0 \<le> visibleWidth r b * visibleHeight r b"
    by (intro mult_nonneg_nonneg visibleWidth_nonneg visibleHeight_nonneg)
  moreover have "safeInteger 0" by (simp add: safeInteger_def)
  ultimately show ?thesis using assms(3) by (blast intro: safeInteger_between)
qed

lemma moveWithinBounds_exact:
  assumes r: "exactRect r" and b: "exactRect b"
    and nn: "0 \<le> r_width r" "0 \<le> r_height r" "0 \<le> r_width b" "0 \<le> r_height b"
  shows "exactRect (moveWithinBounds b r)"
proof -
  let ?m = "moveWithinBounds b r"
  note i = moveWithinBounds_inside [OF nn]
  have w: "0 \<le> r_width ?m" "r_width ?m \<le> r_width r" "0 \<le> r_height ?m" "r_height ?m \<le> r_height r"
    using nn by (simp_all add: moveWithinBounds_size)
  have z: "safeInteger 0" by (simp add: safeInteger_def)
  have sb: "safeInteger (r_x b)" "safeInteger (r_x b + r_width b)"
           "safeInteger (r_y b)" "safeInteger (r_y b + r_height b)"
    using b by (simp_all add: exactRect_def)
  have sr: "safeInteger (r_width r)" "safeInteger (r_height r)" "safeInteger (r_width r * r_height r)"
    using r by (simp_all add: exactRect_def)
  have x: "safeInteger (r_x ?m)" using sb(1,2) i(1) i(7) by (rule safeInteger_between)
  have y: "safeInteger (r_y ?m)" using sb(3,4) i(3) i(9) by (rule safeInteger_between)
  have xw: "safeInteger (r_x ?m + r_width ?m)" using sb(1,2) i(8) i(2) by (rule safeInteger_between)
  have yh: "safeInteger (r_y ?m + r_height ?m)" using sb(3,4) i(10) i(4) by (rule safeInteger_between)
  have sw: "safeInteger (r_width ?m)" using z sr(1) w(1,2) by (rule safeInteger_between)
  have sh: "safeInteger (r_height ?m)" using z sr(2) w(3,4) by (rule safeInteger_between)
  have "r_width ?m * r_height ?m \<le> r_width r * r_height r"
    using w nn by (intro mult_mono) simp_all
  moreover have "0 \<le> r_width ?m * r_height ?m" using w by (intro mult_nonneg_nonneg)
  ultimately have a: "safeInteger (r_width ?m * r_height ?m)"
    using z sr(3) by (blast intro: safeInteger_between)
  from x y sw sh xw yh a show ?thesis by (simp add: exactRect_def)
qed

section \<open>Properties of validation and reconciliation\<close>

lemma ensure_defined:
  "hasBounds st \<Longrightarrow> \<exists>st'. ensureWindowVisibleOnSomeDisplay cfg displays st = Some st'"
  by (auto simp: hasBounds_iff ensureWindowVisibleOnSomeDisplay_def split: prod.splits option.splits)

lemma visibleWidth_zero: "r_width r = 0 \<Longrightarrow> visibleWidth r b = 0"
  by (simp add: visibleWidth_def)

lemma visibleHeight_zero: "r_height r = 0 \<Longrightarrow> visibleHeight r b = 0"
  by (simp add: visibleHeight_def)

text \<open>
  Claim C1 says that \<open>partOfWindowWithinBounds\<close> returns \<open>0\<close> on every rectangle of zero area.
  The source divides by \<open>state.width * state.height\<close> with no guard, and both the visible
  area and the area are \<open>0\<close> then: the result is \<open>0 / 0\<close>, which is \<open>NaN\<close>. Counterexample
  to C1, on a rectangle of width \<open>0\<close>:
\<close>

theorem partOfWindowWithinBounds_zero_area_counterexample:
  "partOfWindowWithinBounds \<lparr> r_x = 0, r_y = 0, r_width = 0, r_height = 600 \<rparr>
      \<lparr> r_x = 0, r_y = 0, r_width = 1000, r_height = 800 \<rparr> = NaN \<and>
   partOfWindowWithinBounds \<lparr> r_x = 0, r_y = 0, r_width = 0, r_height = 600 \<rparr>
      \<lparr> r_x = 0, r_y = 0, r_width = 1000, r_height = 800 \<rparr> \<noteq> Fin 0"
  by (simp add: partOfWindowWithinBounds_def js_div_def visibleWidth_def visibleHeight_def)

text \<open>
  Claim C1, amended: on every rectangle of zero area \<open>partOfWindowWithinBounds\<close> returns
  \<open>NaN\<close> for any bounds, and raises nothing. \<open>NaN > bestVisibility\<close> is false, so a round of
  the loop over the displays leaves \<open>bestBounds\<close> and \<open>bestVisibility\<close> as they were: such a
  rectangle counts like one with no overlap. And \<open>hasBounds\<close> rejects every state of that
  geometry, so \<open>validateState\<close> does not reconcile it.
\<close>

theorem partOfWindowWithinBounds_zero_area:
  assumes "r_width r = 0 \<or> r_height r = 0"
  shows "partOfWindowWithinBounds r b = NaN \<and>
         bestStep r b acc = acc \<and>
         hasBounds (setRect r st) = False"
proof -
  have nan: "partOfWindowWithinBounds r b = NaN"
    using assms
    by (auto simp: partOfWindowWithinBounds_def js_div_def visibleWidth_zero visibleHeight_zero)
  have "bestStep r b acc = acc"
    by (simp add: bestStep_def nan js_gt_def)
  moreover have "\<not> hasBounds (setRect r st)"
    using assms by (auto simp: hasBounds_iff)
  ultimately show ?thesis using nan by simp
qed

text \<open>Witness for C1 (amended), on a rectangle of width \<open>0\<close>.\<close>

theorem partOfWindowWithinBounds_zero_area_witness:
  "partOfWindowWithinBounds \<lparr> r_x = 5, r_y = 7, r_width = 0, r_height = 600 \<rparr>
      \<lparr> r_x = 0, r_y = 0, r_width = 1000, r_height = 800 \<rparr> = NaN \<and>
   bestStep \<lparr> r_x = 5, r_y = 7, r_width = 0, r_height = 600 \<rparr>
      \<lparr> r_x = 0, r_y = 0, r_width = 1000, r_height = 800 \<rparr> (None, Fin 0) = (None, Fin 0) \<and>
   hasBounds (setRect \<lparr> r_x = 5, r_y = 7, r_width = 0, r_height = 600 \<rparr>
      \<lparr> s_x = None, s_y = None, s_width = None, s_height = None,
        s_isMaximized = None, s_isFullScreen = None \<rparr>) = False"
proof -
  have h: "r_width \<lparr> r_x = 5, r_y = 7, r_width = 0, r_height = 600 \<rparr> = 0 \<or>
           r_height \<lparr> r_x = 5, r_y = 7, r_width = 0, r_height = 600 \<rparr> = 0"
    by simp
  show ?thesis by (rule partOfWindowWithinBounds_zero_area [OF h])
qed

text \<open>
  Claim C3: for a state that \<open>hasBounds\<close> accepts and whose rectangle lies inside the bounds
  of one of the displays, \<open>partOfWindowWithinBounds\<close> with that display is \<open>1\<close>,
  \<open>ensureWindowVisibleOnSomeDisplay\<close> leaves the state as it is (so does \<open>validateState\<close>),
  and running it again on the result with the same displays leaves it again. The
  rectangle of the state and the bounds of every display are in range, so that the
  source computes what the embedding computes.
\<close>

theorem contained_unchanged:
  assumes "hasBounds st" and "rectOf st = Some r" and "d \<in> set displays"
    and "r_x d \<le> r_x r" and "r_x r + r_width r \<le> r_x d + r_width d"
    and "r_y d \<le> r_y r" and "r_y r + r_height r \<le> r_y d + r_height d"
    and "exactRect r" and "\<forall>e\<in>set displays. exactRect e"
  shows "partOfWindowWithinBounds r d = Fin 1 \<and>
         ensureWindowVisibleOnSomeDisplay cfg displays st = Some st \<and>
         Option.bind (ensureWindowVisibleOnSomeDisplay cfg displays st)
           (ensureWindowVisibleOnSomeDisplay cfg displays) = Some st \<and>
         validateState cfg displays (Some st) = Some st"
proof -
  from assms(1,2) have pos: "0 < r_width r" "0 < r_height r"
    by (auto simp: hasBounds_iff)
  have "visibleFraction r d = 1"
    using pos assms(4-7) by (rule visibleFraction_inside)
  then have one: "partOfWindowWithinBounds r d = Fin 1"
    using pos by (simp add: partOf_positive_area)
  have e: "ensureWindowVisibleOnSomeDisplay cfg displays st = Some st"
    using assms(2) pos assms(3-7) by (rule ensure_contained)
  have "validateState cfg displays (Some st) = Some st"
    using assms(1) e by (simp add: validateState_def isValid_def)
  with one e show ?thesis by simp
qed

text \<open>Witness for C3: an 800 by 600 window on the second of two displays.\<close>

theorem contained_unchanged_witness:
  "hasBounds (geometry 100 50 800 600) \<and>
   partOfWindowWithinBounds (rectangle 100 50 800 600) (rectangle 0 0 1920 1080) = Fin 1 \<and>
   ensureWindowVisibleOnSomeDisplay noOptions
      [rectangle (-1280) 0 1280 1024, rectangle 0 0 1920 1080] (geometry 100 50 800 600) =
     Some (geometry 100 50 800 600) \<and>
   validateState noOptions
      [rectangle (-1280) 0 1280 1024, rectangle 0 0 1920 1080] (Some (geometry 100 50 800 600)) =
     Some (geometry 100 50 800 600)"
proof -
  let ?st = "geometry 100 50 800 600"
  let ?r = "rectangle 100 50 800 600"
  let ?d = "rectangle 0 0 1920 1080"
  let ?ds = "[rectangle (-1280) 0 1280 1024, ?d]"
  have h: "hasBounds ?st" by (simp add: hasBounds_geometry)
  have r: "rectOf ?st = Some ?r" by (rule rectOf_geometry)
  have d: "?d \<in> set ?ds" by simp
  have i: "r_x ?d \<le> r_x ?r" "r_x ?r + r_width ?r \<le> r_x ?d + r_width ?d"
          "r_y ?d \<le> r_y ?r" "r_y ?r + r_height ?r \<le> r_y ?d + r_height ?d"
    by simp_all
  have x: "exactRect ?r" by (simp add: exactRect_def safeInteger_def)
  have xs: "\<forall>e\<in>set ?ds. exactRect e" by (simp add: exactRect_def safeInteger_def)
  show ?thesis using h contained_unchanged [OF h r d i x xs, of noOptions] by simp
qed

text \<open>
  Claim C4: for a state that \<open>hasBounds\<close> accepts and whose rectangle has overlap \<open>0\<close> with
  every display, \<open>ensureWindowVisibleOnSomeDisplay\<close> (and \<open>validateState\<close> with it) replaces
  the state by \<open>{width: config.defaultWidth || 800, height: config.defaultHeight || 600,
  x: 0, y: 0}\<close>, in which \<open>isMaximized\<close> and \<open>isFullScreen\<close> are absent; with no default
  configured, the width and height are \<open>800\<close> and \<open>600\<close>.
\<close>

theorem invisible_reset:
  assumes "hasBounds st" and "rectOf st = Some r"
    and "\<forall>d\<in>set displays. partOfWindowWithinBounds r d = Fin 0"
  shows "ensureWindowVisibleOnSomeDisplay cfg displays st =
           Some \<lparr> s_x = Some (num 0), s_y = Some (num 0),
                  s_width = Some (js_or (defaultWidth cfg) (num 800)),
                  s_height = Some (js_or (defaultHeight cfg) (num 600)),
                  s_isMaximized = None, s_isFullScreen = None \<rparr> \<and>
         validateState cfg displays (Some st) =
           Some \<lparr> s_x = Some (num 0), s_y = Some (num 0),
                  s_width = Some (js_or (defaultWidth cfg) (num 800)),
                  s_height = Some (js_or (defaultHeight cfg) (num 600)),
                  s_isMaximized = None, s_isFullScreen = None \<rparr> \<and>
         initialState cfg displays (Some st) =
           \<lparr> s_x = Some (num 0), s_y = Some (num 0),
             s_width = Some (js_or (defaultWidth cfg) (num 800)),
             s_height = Some (js_or (defaultHeight cfg) (num 600)),
             s_isMaximized = None, s_isFullScreen = None \<rparr> \<and>
         js_or JUndefined (num 800) = num 800 \<and> js_or JUndefined (num 600) = num 600"
proof -
  from assms(1,2) have pos: "0 < r_width r" "0 < r_height r"
    by (auto simp: hasBounds_iff)
  have zero: "\<forall>d\<in>set displays. visibleFraction r d = 0"
    using assms(3) pos by (simp add: partOf_positive_area)
  have "bestDisplay displays r = (None, Fin 0)"
    using bestDisplay_cases [OF pos, of displays] zero by auto
  then have e: "ensureWindowVisibleOnSomeDisplay cfg displays st = Some (resetStateToDefault cfg)"
    using assms(2) by (simp add: ensureWindowVisibleOnSomeDisplay_def)
  then have v: "validateState cfg displays (Some st) = Some (resetStateToDefault cfg)"
    using assms(1) by (simp add: validateState_def isValid_def)
  then have "initialState cfg displays (Some st) = resetStateToDefault cfg"
    by (simp add: initialState_def withFallback_def resetStateToDefault_def)
  with e v show ?thesis by (simp add: resetStateToDefault_def js_or_def)
qed

text \<open>
  Witness for C4, the scenario of the claim: \<open>{x: 2000, y: 0, width: 800, height: 600}\<close> with
  the single display \<open>{x: 0, y: 0, width: 1000, height: 800}\<close>.
\<close>

theorem invisible_reset_witness:
  "hasBounds (geometry 2000 0 800 600) \<and>
   partOfWindowWithinBounds (rectangle 2000 0 800 600) (rectangle 0 0 1000 800) = Fin 0 \<and>
   ensureWindowVisibleOnSomeDisplay noOptions [rectangle 0 0 1000 800] (geometry 2000 0 800 600) =
     Some (geometry 0 0 800 600)"
proof -
  have h: "hasBounds (geometry 2000 0 800 600)" by (simp add: hasBounds_geometry)
  have r: "rectOf (geometry 2000 0 800 600) = Some (rectangle 2000 0 800 600)"
    by (rule rectOf_geometry)
  have p: "partOfWindowWithinBounds (rectangle 2000 0 800 600) (rectangle 0 0 1000 800) = Fin 0"
    by (simp add: partOfWindowWithinBounds_def js_div_def visibleWidth_def visibleHeight_def)
  then have z: "\<forall>d\<in>set [rectangle 0 0 1000 800].
      partOfWindowWithinBounds (rectangle 2000 0 800 600) d = Fin 0"
    by simp
  show ?thesis using h p invisible_reset [OF h r z, of noOptions] by (simp add: js_or_def)
qed

text \<open>
  Claim C5: for a rectangle (width and height not negative) and bounds of positive width
  and height, both in range, the result of \<open>moveWithinBounds\<close> is at most as wide and as
  high as the bounds, and its left, right, top and bottom edges lie within the bounds
  (and it is in range again); and
  \<open>{x: 900, y: 0, width: 800, height: 600}\<close> moved into \<open>{x: 0, y: 0, width: 1000, height: 800}\<close>
  is \<open>{x: 200, y: 0, width: 800, height: 600}\<close>.
\<close>

theorem moveWithinBounds_fits:
  assumes "0 \<le> r_width r" and "0 \<le> r_height r" and "0 < r_width b" and "0 < r_height b"
    and "exactRect r" and "exactRect b"
  shows "exactRect (moveWithinBounds b r) \<and>
         r_width (moveWithinBounds b r) \<le> r_width b \<and>
         r_height (moveWithinBounds b r) \<le> r_height b \<and>
         r_x b \<le> r_x (moveWithinBounds b r) \<and>
         r_x (moveWithinBounds b r) \<le> r_x b + r_width b \<and>
         r_x b \<le> r_x (moveWithinBounds b r) + r_width (moveWithinBounds b r) \<and>
         r_x (moveWithinBounds b r) + r_width (moveWithinBounds b r) \<le> r_x b + r_width b \<and>
         r_y b \<le> r_y (moveWithinBounds b r) \<and>
         r_y (moveWithinBounds b r) \<le> r_y b + r_height b \<and>
         r_y b \<le> r_y (moveWithinBounds b r) + r_height (moveWithinBounds b r) \<and>
         r_y (moveWithinBounds b r) + r_height (moveWithinBounds b r) \<le> r_y b + r_height b \<and>
         moveWithinBounds (rectangle 0 0 1000 800) (rectangle 900 0 800 600) =
           rectangle 200 0 800 600"
proof -
  have nn: "0 \<le> r_width b" "0 \<le> r_height b" using assms by simp_all
  have "moveWithinBounds (rectangle 0 0 1000 800) (rectangle 900 0 800 600) =
          rectangle 200 0 800 600"
    by (simp add: moveWithinBounds_def)
  moreover have "exactRect (moveWithinBounds b r)"
    using assms(5,6,1,2) nn by (rule moveWithinBounds_exact)
  ultimately show ?thesis
    using moveWithinBounds_inside [OF assms(1,2) nn] by simp
qed

text \<open>Witness for C5: a window larger than the display left of the primary one.\<close>

theorem moveWithinBounds_fits_witness:
  "moveWithinBounds (rectangle (-1280) 0 1280 1024) (rectangle (-200) 700 1600 900) =
     rectangle (-1280) 124 1280 900 \<and>
   r_width (moveWithinBounds (rectangle (-1280) 0 1280 1024) (rectangle (-200) 700 1600 900)) \<le> 1280 \<and>
   r_y (moveWithinBounds (rectangle (-1280) 0 1280 1024) (rectangle (-200) 700 1600 900)) +
     r_height (moveWithinBounds (rectangle (-1280) 0 1280 1024) (rectangle (-200) 700 1600 900)) \<le> 1024"
proof -
  have h: "0 \<le> r_width (rectangle (-200) 700 1600 900)" "0 \<le> r_height (rectangle (-200) 700 1600 900)"
    "0 < r_width (rectangle (-1280) 0 1280 1024)" "0 < r_height (rectangle (-1280) 0 1280 1024)"
    by simp_all
  have x: "exactRect (rectangle (-200) 700 1600 900)" "exactRect (rectangle (-1280) 0 1280 1024)"
    by (simp_all add: exactRect_def safeInteger_def)
  have "moveWithinBounds (rectangle (-1280) 0 1280 1024) (rectangle (-200) 700 1600 900) =
     rectangle (-1280) 124 1280 900"
    by (simp add: moveWithinBounds_def)
  then show ?thesis using moveWithinBounds_fits [OF h x] by simp
qed

text \<open>
  Claim C6: a state that \<open>hasBounds\<close> rejects but whose \<open>isMaximized\<close> or \<open>isFullScreen\<close> is
  true comes out of \<open>validateState\<close> as it went in, whatever the displays are:
  \<open>ensureWindowVisibleOnSomeDisplay\<close> is not run on it.
\<close>

theorem mode_only_unchanged:
  assumes "\<not> hasBounds st"
    and "truthy (getProp (s_isMaximized st)) \<or> truthy (getProp (s_isFullScreen st))"
  shows "validateState cfg displays (Some st) = Some st"
  using assms by (simp add: validateState_def isValid_def)

text \<open>Witness for C6: the state \<open>{isMaximized: true}\<close>.\<close>

theorem mode_only_unchanged_witness:
  "\<not> hasBounds \<lparr> s_x = None, s_y = None, s_width = None, s_height = None,
                 s_isMaximized = Some (JBool True), s_isFullScreen = None \<rparr> \<and>
   validateState noOptions [rectangle 0 0 1000 800]
     (Some \<lparr> s_x = None, s_y = None, s_width = None, s_height = None,
             s_isMaximized = Some (JBool True), s_isFullScreen = None \<rparr>) =
     Some \<lparr> s_x = None, s_y = None, s_width = None, s_height = None,
            s_isMaximized = Some (JBool True), s_isFullScreen = None \<rparr>"
proof -
  let ?st = "\<lparr> s_x = None, s_y = None, s_width = None, s_height = None,
                 s_isMaximized = Some (JBool True), s_isFullScreen = None \<rparr>"
  have h: "\<not> hasBounds ?st" by (simp add: hasBounds_def)
  have m: "truthy (getProp (s_isMaximized ?st)) \<or> truthy (getProp (s_isFullScreen ?st))" by simp
  show ?thesis using h mode_only_unchanged [OF h m, of noOptions "[rectangle 0 0 1000 800]"] by simp
qed

text \<open>
  Claim C7: when nothing was loaded, or the loaded state is rejected by \<open>hasBounds\<close> and
  neither \<open>isMaximized\<close> nor \<open>isFullScreen\<close> is true, \<open>validateState\<close> sets the state to
  \<open>null\<close> and the controller starts from \<open>{width: config.defaultWidth || 800,
  height: config.defaultHeight || 600}\<close>, with \<open>x\<close> and \<open>y\<close> absent.
\<close>

theorem invalid_discarded:
  assumes "loaded = None \<or>
           (\<exists>st. loaded = Some st \<and> \<not> hasBounds st \<and>
                 \<not> truthy (getProp (s_isMaximized st)) \<and> \<not> truthy (getProp (s_isFullScreen st)))"
  shows "validateState cfg displays loaded = None \<and>
         initialState cfg displays loaded =
           \<lparr> s_x = None, s_y = None,
             s_width = Some (js_or (defaultWidth cfg) (num 800)),
             s_height = Some (js_or (defaultHeight cfg) (num 600)),
             s_isMaximized = None, s_isFullScreen = None \<rparr>"
proof -
  have "validateState cfg displays loaded = None"
    using assms by (auto simp: validateState_def isValid_def)
  then show ?thesis by (simp add: initialState_def withFallback_def)
qed

text \<open>Witness for C7: the state \<open>{x: 10, y: 10, width: 0, height: 600}\<close>, and no state at all.\<close>

theorem invalid_discarded_witness:
  "\<not> hasBounds (geometry 10 10 0 600) \<and>
   validateState noOptions [rectangle 0 0 1000 800] (Some (geometry 10 10 0 600)) = None \<and>
   initialState noOptions [rectangle 0 0 1000 800] (Some (geometry 10 10 0 600)) =
     \<lparr> s_x = None, s_y = None, s_width = Some (num 800), s_height = Some (num 600),
       s_isMaximized = None, s_isFullScreen = None \<rparr> \<and>
   initialState noOptions [rectangle 0 0 1000 800] None =
     \<lparr> s_x = None, s_y = None, s_width = Some (num 800), s_height = Some (num 600),
       s_isMaximized = None, s_isFullScreen = None \<rparr>"
proof -
  have h: "\<not> hasBounds (geometry 10 10 0 600)" by (simp add: hasBounds_geometry)
  have a: "Some (geometry 10 10 0 600) = None \<or>
           (\<exists>st. Some (geometry 10 10 0 600) = Some st \<and> \<not> hasBounds st \<and>
                 \<not> truthy (getProp (s_isMaximized st)) \<and> \<not> truthy (getProp (s_isFullScreen st)))"
    using h by simp
  have b: "(None :: wstate option) = None \<or>
           (\<exists>st. None = Some st \<and> \<not> hasBounds st \<and>
                 \<not> truthy (getProp (s_isMaximized st)) \<and> \<not> truthy (getProp (s_isFullScreen st)))"
    by simp
  show ?thesis
    using h invalid_discarded [OF a, of noOptions "[rectangle 0 0 1000 800]"]
      invalid_discarded [OF b, of noOptions "[rectangle 0 0 1000 800]"]
    by (simp add: js_or_def)
qed

text \<open>
  Claim C10 says that \<open>ensureWindowVisibleOnSomeDisplay\<close> run twice gives what one run
  gives, for every state that \<open>hasBounds\<close> accepts. A state that no display shows is reset
  to the default size at \<open>(0, 0)\<close>, and the reset state is not compared with the displays:
  a second run moves it into a display it overlaps. Counterexample to C10, with one
  display of 640 by 480:
\<close>

theorem reconcile_twice_counterexample:
  "hasBounds (geometry 2000 0 800 600) \<and>
   ensureWindowVisibleOnSomeDisplay noOptions [rectangle 0 0 640 480] (geometry 2000 0 800 600) =
     Some (geometry 0 0 800 600) \<and>
   Option.bind
     (ensureWindowVisibleOnSomeDisplay noOptions [rectangle 0 0 640 480] (geometry 2000 0 800 600))
     (ensureWindowVisibleOnSomeDisplay noOptions [rectangle 0 0 640 480]) =
     Some (geometry 0 0 640 480) \<and>
   geometry 0 0 640 480 \<noteq> geometry 0 0 800 600"
proof -
  have h: "hasBounds (geometry 2000 0 800 600)" by (simp add: hasBounds_geometry)
  have e1: "ensureWindowVisibleOnSomeDisplay noOptions [rectangle 0 0 640 480]
      (geometry 2000 0 800 600) = Some (geometry 0 0 800 600)"
    by (simp add: ensureWindowVisibleOnSomeDisplay_def rectOf_geometry bestDisplay_def
        bestStep_def partOfWindowWithinBounds_def js_div_def js_gt_def visibleWidth_def
        visibleHeight_def resetStateToDefault_def js_or_def)
  have e2: "ensureWindowVisibleOnSomeDisplay noOptions [rectangle 0 0 640 480]
      (geometry 0 0 800 600) = Some (geometry 0 0 640 480)"
    by (simp add: ensureWindowVisibleOnSomeDisplay_def rectOf_geometry bestDisplay_def
        bestStep_def partOfWindowWithinBounds_def js_div_def js_gt_def visibleWidth_def
        visibleHeight_def moveWithinBounds_def setRect_def)
  have ne: "geometry 0 0 640 480 \<noteq> geometry 0 0 800 600" by (simp add: num_def)
  show ?thesis using h e1 e2 ne by simp
qed

text \<open>
  Claim C10, amended: for every state that \<open>hasBounds\<close> accepts, whose rectangle is in range
  like the bounds of every display, and that overlaps at least one display,
  \<open>ensureWindowVisibleOnSomeDisplay\<close> returns a state, in range again, on which a second
  run with the same displays changes nothing (and so for \<open>validateState\<close>).
\<close>

theorem reconcile_twice_when_visible:
  assumes "hasBounds st" and "rectOf st = Some r" and "d \<in> set displays"
    and "js_gt (partOfWindowWithinBounds r d) (Fin 0)"
    and "exactRect r" and "\<forall>e\<in>set displays. exactRect e"
  shows "\<exists>st' r'. ensureWindowVisibleOnSomeDisplay cfg displays st = Some st' \<and>
               rectOf st' = Some r' \<and> exactRect r' \<and>
               ensureWindowVisibleOnSomeDisplay cfg displays st' = Some st' \<and>
               validateState cfg displays (Some st) = Some st' \<and>
               validateState cfg displays (Some st') = Some st'"
proof -
  from assms(1,2) have pos: "0 < r_width r" "0 < r_height r"
    by (auto simp: hasBounds_iff)
  have dpos: "0 < visibleFraction r d"
    using assms(4) pos by (simp add: partOf_positive_area js_gt_def)
  obtain b q where best: "bestDisplay displays r = (Some b, Fin q)" and b: "b \<in> set displays"
    and vb: "visibleFraction r b = q" and q: "0 < q" "q \<le> 1"
    using bestDisplay_cases [OF pos, of displays] assms(3) dpos by force
  have val: "validateState cfg displays (Some s) = ensureWindowVisibleOnSomeDisplay cfg displays s"
    if "hasBounds s" for s
    using that by (simp add: validateState_def isValid_def)
  show ?thesis
  proof (cases "q < 1")
    case True
    let ?r' = "moveWithinBounds b r"
    let ?st' = "setRect ?r' st"
    have e: "ensureWindowVisibleOnSomeDisplay cfg displays st = Some ?st'"
      using assms(2) best True by (simp add: ensureWindowVisibleOnSomeDisplay_def)
    have bpos: "0 < r_width b" "0 < r_height b"
      using visibleFraction_pos_bounds [OF pos, of b] vb q by simp_all
    have pos': "0 < r_width ?r'" "0 < r_height ?r'"
      using pos bpos by (simp_all add: moveWithinBounds_size)
    have nn: "0 \<le> r_width r" "0 \<le> r_height r" "0 \<le> r_width b" "0 \<le> r_height b"
      using pos bpos by simp_all
    have e': "ensureWindowVisibleOnSomeDisplay cfg displays ?st' = Some ?st'"
      using rectOf_setRect pos' b
        moveWithinBounds_inside(1) [OF nn] moveWithinBounds_inside(2) [OF nn]
        moveWithinBounds_inside(3) [OF nn] moveWithinBounds_inside(4) [OF nn]
      by (rule ensure_contained)
    have hb: "hasBounds ?st'" using pos' by (auto simp: hasBounds_iff)
    have "exactRect b" using assms(6) b by simp
    with assms(5) have x: "exactRect ?r'" using nn by (rule moveWithinBounds_exact)
    have "ensureWindowVisibleOnSomeDisplay cfg displays st = Some ?st' \<and>
          rectOf ?st' = Some ?r' \<and> exactRect ?r' \<and>
          ensureWindowVisibleOnSomeDisplay cfg displays ?st' = Some ?st' \<and>
          validateState cfg displays (Some st) = Some ?st' \<and>
          validateState cfg displays (Some ?st') = Some ?st'"
      using e e' x val [OF hb] val [OF assms(1)] by simp
    then show ?thesis by blast
  next
    case False
    have e: "ensureWindowVisibleOnSomeDisplay cfg displays st = Some st"
      using assms(2) best False by (simp add: ensureWindowVisibleOnSomeDisplay_def)
    have "ensureWindowVisibleOnSomeDisplay cfg displays st = Some st \<and>
          rectOf st = Some r \<and> exactRect r \<and>
          ensureWindowVisibleOnSomeDisplay cfg displays st = Some st \<and>
          validateState cfg displays (Some st) = Some st \<and>
          validateState cfg displays (Some st) = Some st"
      using e assms(2,5) val [OF assms(1)] by simp
    then show ?thesis by blast
  qed
qed

text \<open>
  Witness for C10 (amended): \<open>{x: 900, y: 0, width: 800, height: 600}\<close>, one eighth of which
  is on the display \<open>{x: 0, y: 0, width: 1000, height: 800}\<close>.
\<close>

theorem reconcile_twice_when_visible_witness:
  "hasBounds (geometry 900 0 800 600) \<and>
   partOfWindowWithinBounds (rectangle 900 0 800 600) (rectangle 0 0 1000 800) = Fin (1 / 8) \<and>
   ensureWindowVisibleOnSomeDisplay noOptions [rectangle 0 0 1000 800] (geometry 900 0 800 600) =
     Some (geometry 200 0 800 600) \<and>
   ensureWindowVisibleOnSomeDisplay noOptions [rectangle 0 0 1000 800] (geometry 200 0 800 600) =
     Some (geometry 200 0 800 600)"
proof -
  have h: "hasBounds (geometry 900 0 800 600)" by (simp add: hasBounds_geometry)
  have r: "rectOf (geometry 900 0 800 600) = Some (rectangle 900 0 800 600)"
    by (rule rectOf_geometry)
  have d: "rectangle 0 0 1000 800 \<in> set [rectangle 0 0 1000 800]" by simp
  have p: "partOfWindowWithinBounds (rectangle 900 0 800 600) (rectangle 0 0 1000 800) = Fin (1 / 8)"
    by (simp add: partOfWindowWithinBounds_def js_div_def visibleWidth_def visibleHeight_def)
  then have g: "js_gt (partOfWindowWithinBounds (rectangle 900 0 800 600) (rectangle 0 0 1000 800)) (Fin 0)"
    by (simp add: js_gt_def)
  have e: "ensureWindowVisibleOnSomeDisplay noOptions [rectangle 0 0 1000 800] (geometry 900 0 800 600) =
     Some (geometry 200 0 800 600)"
    by (simp add: ensureWindowVisibleOnSomeDisplay_def rectOf_geometry bestDisplay_def
        bestStep_def p js_gt_def moveWithinBounds_def setRect_def)
  have x: "exactRect (rectangle 900 0 800 600)" by (simp add: exactRect_def safeInteger_def)
  have xs: "\<forall>e\<in>set [rectangle 0 0 1000 800]. exactRect e"
    by (simp add: exactRect_def safeInteger_def)
  from reconcile_twice_when_visible [OF h r d g x xs, of noOptions] e h p show ?thesis by auto
qed

section \<open>Listeners of the managed window\<close>

lemma on_simps [simp]:
  "state (on h ev f m) = state m"
  "winRef (on h ev f m) = winRef m"
  "stateChangeTimer (on h ev f m) = stateChangeTimer m"
  "timers (on h ev f m) = timers m"
  "nextTimer (on h ev f m) = nextTimer m"
  "w_listeners (windows (on h ev f m) k) =
     (if k = h then w_listeners (windows m h) @ [(ev, f)] else w_listeners (windows m k))"
  "w_destroyed (windows (on h ev f m) k) = w_destroyed (windows m k)"
  by (simp_all add: on_def)

lemma removeListener_simps [simp]:
  "state (removeListener h ev f m) = state m"
  "winRef (removeListener h ev f m) = winRef m"
  "stateChangeTimer (removeListener h ev f m) = stateChangeTimer m"
  "timers (removeListener h ev f m) = timers m"
  "nextTimer (removeListener h ev f m) = nextTimer m"
  "w_listeners (windows (removeListener h ev f m) k) =
     (if k = h then removeLast (ev, f) (w_listeners (windows m h)) else w_listeners (windows m k))"
  "w_destroyed (windows (removeListener h ev f m) k) = w_destroyed (windows m k)"
  by (simp_all add: removeListener_def)

lemma sendRequest_simps [simp]:
  "state (sendRequest h q m) = state m"
  "winRef (sendRequest h q m) = winRef m"
  "stateChangeTimer (sendRequest h q m) = stateChangeTimer m"
  "timers (sendRequest h q m) = timers m"
  "nextTimer (sendRequest h q m) = nextTimer m"
  "w_listeners (windows (sendRequest h q m) k) = w_listeners (windows m k)"
  "w_destroyed (windows (sendRequest h q m) k) = w_destroyed (windows m k)"
  by (simp_all add: sendRequest_def)

lemma clearTimeout_simps [simp]:
  "state (clearTimeout t m) = state m"
  "winRef (clearTimeout t m) = winRef m"
  "stateChangeTimer (clearTimeout t m) = stateChangeTimer m"
  "windows (clearTimeout t m) = windows m"
  "nextTimer (clearTimeout t m) = nextTimer m"
  "timers (clearTimeout t m) = (case t of None \<Rightarrow> timers m | Some i \<Rightarrow> removeAll i (timers m))"
  by (simp_all add: clearTimeout_def split: option.splits)

lemma removeLast_managed:
  "removeLast (Closed, ClosedHandler) (removeLast (Close, CloseHandler)
     (removeLast (Move, StateChangeHandler) (removeLast (Resize, StateChangeHandler)
        (xs @ managedListeners)))) = xs"
  by (simp add: removeLast_def managedListeners_def)

lemma manage_Some:
  assumes "manage cfg h m = Some m'"
  shows "winRef m' = Some h" and "state m' = state m" and "timers m' = timers m"
    and "stateChangeTimer m' = stateChangeTimer m"
    and "w_listeners (windows m' k) =
           (if k = h then w_listeners (windows m h) @ managedListeners else w_listeners (windows m k))"
    and "w_destroyed (windows m' k) = w_destroyed (windows m k)"
  using assms
  by (auto simp: manage_def Let_def managedListeners_def split: if_splits)

lemma manage_defined:
  "(\<exists>m'. manage cfg h m = Some m') \<longleftrightarrow>
     \<not> (((truthy (maximize cfg) \<and> truthy (getProp (s_isMaximized (state m)))) \<or>
          (truthy (fullScreen cfg) \<and> truthy (getProp (s_isFullScreen (state m))))) \<and>
         w_destroyed (windows m h))"
  by (simp add: manage_def Let_def)

lemma unmanage_managed:
  assumes "winRef m = Some h"
  shows "winRef (unmanage m) = None" and "state (unmanage m) = state m"
    and "w_listeners (windows (unmanage m) k) =
           (if k = h then removeLast (Closed, ClosedHandler) (removeLast (Close, CloseHandler)
              (removeLast (Move, StateChangeHandler) (removeLast (Resize, StateChangeHandler)
                 (w_listeners (windows m h)))))
            else w_listeners (windows m k))"
    and "w_destroyed (windows (unmanage m) k) = w_destroyed (windows m k)"
    and "timers (unmanage m) =
           (case stateChangeTimer m of None \<Rightarrow> timers m | Some i \<Rightarrow> removeAll i (timers m))"
  using assms by (simp_all add: unmanage_def Let_def split: option.splits)

text \<open>
  Claim C2 says that a second \<open>manage\<close> with no \<open>unmanage\<close> before it leaves none of the
  controller's listeners on the handle managed first. \<open>manage\<close> subscribes and sets
  \<open>winRef\<close>; it removes nothing. Counterexample to C2: after \<open>manage\<close> of window 1 and then of
  window 2, the four listeners are still on window 1.
\<close>

theorem manage_again_counterexample:
  "map_option (\<lambda>m. (winRef m, w_listeners (windows m 1)))
     (Option.bind (manage noOptions 1 (freshMachine (geometry 0 0 800 600))) (manage noOptions 2)) =
   Some (Some 2, [(Resize, StateChangeHandler), (Move, StateChangeHandler),
                  (Close, CloseHandler), (Closed, ClosedHandler)])"
  by (simp add: manage_def on_def)

text \<open>
  Claim C2, amended: \<open>manage(h2)\<close> after \<open>manage(h1)\<close> with no \<open>unmanage()\<close> between them
  tracks \<open>h2\<close> and subscribes the four listeners on it, and leaves the four listeners on
  \<open>h1\<close>, where a later \<open>unmanage()\<close> does not reach them either. They are gone from \<open>h1\<close>
  when \<open>unmanage()\<close> is called before \<open>manage(h2)\<close>.
\<close>

theorem manage_again_keeps_listeners:
  assumes "manage cfg h1 m = Some m1" and "manage cfg h2 m1 = Some m2" and "h1 \<noteq> h2"
  shows "winRef m2 = Some h2 \<and>
         w_listeners (windows m2 h2) = w_listeners (windows m h2) @ managedListeners \<and>
         w_listeners (windows m2 h1) = w_listeners (windows m h1) @ managedListeners \<and>
         w_listeners (windows (unmanage m2) h1) = w_listeners (windows m h1) @ managedListeners \<and>
         (\<exists>m3. manage cfg h2 (unmanage m1) = Some m3 \<and> winRef m3 = Some h2 \<and>
               w_listeners (windows m3 h2) = w_listeners (windows m h2) @ managedListeners \<and>
               w_listeners (windows m3 h1) = w_listeners (windows m h1))"
proof -
  note a = manage_Some [OF assms(1)]
  note b = manage_Some [OF assms(2)]
  note u = unmanage_managed [OF a(1)]
  note u2 = unmanage_managed [OF b(1)]
  have l1: "w_listeners (windows m2 h1) = w_listeners (windows m h1) @ managedListeners"
    using assms(3) by (simp add: a(5) b(5))
  have l2: "w_listeners (windows m2 h2) = w_listeners (windows m h2) @ managedListeners"
    using assms(3) by (simp add: a(5) b(5))
  have l3: "w_listeners (windows (unmanage m2) h1) = w_listeners (windows m h1) @ managedListeners"
    using assms(3) l1 by (simp add: u2(3))
  have "\<exists>m'. manage cfg h2 m1 = Some m'" using assms(2) by blast
  then have "\<exists>m3. manage cfg h2 (unmanage m1) = Some m3"
    unfolding manage_defined by (simp add: u(2) u(4))
  then obtain m3 where m3: "manage cfg h2 (unmanage m1) = Some m3" by blast
  note c = manage_Some [OF m3]
  have "w_listeners (windows m3 h1) = w_listeners (windows m h1)"
    using assms(3) by (simp add: c(5) u(3) a(5) removeLast_managed)
  moreover have "w_listeners (windows m3 h2) = w_listeners (windows m h2) @ managedListeners"
    using assms(3) by (simp add: c(5) u(3) a(5))
  ultimately show ?thesis using m3 c(1) b(1) l1 l2 l3 by simp
qed

text \<open>Witness for C2 (amended): windows 1 and 2 of a controller that has managed nothing yet.\<close>

theorem manage_again_keeps_listeners_witness:
  "manage noOptions 1 (freshMachine (geometry 0 0 800 600)) \<noteq> None \<and>
   map_option (\<lambda>m. (winRef m, w_listeners (windows m 1), w_listeners (windows m 2)))
     (Option.bind (manage noOptions 1 (freshMachine (geometry 0 0 800 600))) (manage noOptions 2)) =
     Some (Some 2, managedListeners, managedListeners) \<and>
   map_option ((\<lambda>m. (winRef m, w_listeners (windows m 1), w_listeners (windows m 2))) \<circ> unmanage)
     (Option.bind (manage noOptions 1 (freshMachine (geometry 0 0 800 600))) (manage noOptions 2)) =
     Some (None, managedListeners, [])"
proof -
  let ?m = "freshMachine (geometry 0 0 800 600)"
  obtain m1 where m1: "manage noOptions 1 ?m = Some m1"
    using manage_defined [of noOptions 1 ?m] by auto
  have "\<not> w_destroyed (windows m1 2)" using manage_Some(6) [OF m1, of 2] by simp
  then obtain m2 where m2: "manage noOptions 2 m1 = Some m2"
    using manage_defined [of noOptions 2 m1] by auto
  have ne: "(1::nat) \<noteq> 2" by simp
  have u: "w_listeners (windows (unmanage m2) 2) = []"
    using unmanage_managed(3) [OF manage_Some(1) [OF m2], of 2]
      manage_Some(5) [OF m2, of 2] manage_Some(5) [OF m1, of 2] removeLast_managed [of "[]"]
    by simp
  have v: "winRef (unmanage m2) = None"
    using unmanage_managed(1) [OF manage_Some(1) [OF m2]] .
  show ?thesis
    using manage_again_keeps_listeners [OF m1 m2 ne] m1 m2 u v by simp
qed

section \<open>Reading the window and the deferred update\<close>

lemma updateState_frame [simp]:
  "winRef (updateState win m) = winRef m"
  "stateChangeTimer (updateState win m) = stateChangeTimer m"
  "windows (updateState win m) = windows m"
  "timers (updateState win m) = timers m"
  "nextTimer (updateState win m) = nextTimer m"
  by (simp_all add: updateState_def Let_def split: option.splits)

lemma updateState_live:
  assumes "win = Some h \<or> (win = None \<and> winRef m = Some h)"
    and "\<not> w_destroyed (windows m h)"
  shows "state (updateState win m) =
           (if isNormal (windows m h) then setRect (w_bounds (windows m h)) (state m) else state m)
             \<lparr> s_isMaximized := Some (JBool (w_isMaximized (windows m h))),
               s_isFullScreen := Some (JBool (w_isFullScreen (windows m h))) \<rparr>"
  using assms by (auto simp: updateState_def Let_def)

text \<open>
  Claim C8: when \<open>updateState\<close> reads a window that is not destroyed (the one passed, or
  \<open>winRef\<close> when none is passed), it writes \<open>isMaximized\<close> and \<open>isFullScreen\<close> from the window
  in every case; \<open>x\<close>, \<open>y\<close>, \<open>width\<close> and \<open>height\<close> are written from the window's bounds when
  the window is neither maximized nor minimized nor in full screen, and are left as they
  were otherwise.
\<close>

theorem updateState_effect:
  assumes "win = Some h \<or> (win = None \<and> winRef m = Some h)"
    and "\<not> w_destroyed (windows m h)"
  shows "s_isMaximized (state (updateState win m)) = Some (JBool (w_isMaximized (windows m h))) \<and>
         s_isFullScreen (state (updateState win m)) = Some (JBool (w_isFullScreen (windows m h))) \<and>
         (if isNormal (windows m h)
          then s_x (state (updateState win m)) = Some (num (r_x (w_bounds (windows m h)))) \<and>
               s_y (state (updateState win m)) = Some (num (r_y (w_bounds (windows m h)))) \<and>
               s_width (state (updateState win m)) = Some (num (r_width (w_bounds (windows m h)))) \<and>
               s_height (state (updateState win m)) = Some (num (r_height (w_bounds (windows m h))))
          else s_x (state (updateState win m)) = s_x (state m) \<and>
               s_y (state (updateState win m)) = s_y (state m) \<and>
               s_width (state (updateState win m)) = s_width (state m) \<and>
               s_height (state (updateState win m)) = s_height (state m))"
  by (simp add: updateState_live [OF assms] setRect_def)

text \<open>Witness for C8: a normal window passed as argument, and a maximized one read through \<open>winRef\<close>.\<close>

theorem updateState_effect_witness:
  "state (updateState (Some 1) (freshMachine (geometry 10 20 300 200))) =
     \<lparr> s_x = Some (num 0), s_y = Some (num 0), s_width = Some (num 800), s_height = Some (num 600),
       s_isMaximized = Some (JBool False), s_isFullScreen = Some (JBool False) \<rparr> \<and>
   state (updateState None
      ((freshMachine (geometry 10 20 300 200)) \<lparr> winRef := Some 1, windows := (\<lambda>h. maximizedWindow) \<rparr>)) =
     \<lparr> s_x = Some (num 10), s_y = Some (num 20), s_width = Some (num 300), s_height = Some (num 200),
       s_isMaximized = Some (JBool True), s_isFullScreen = Some (JBool False) \<rparr>"
proof -
  let ?m = "freshMachine (geometry 10 20 300 200)"
  let ?n = "?m \<lparr> winRef := Some 1, windows := (\<lambda>h. maximizedWindow) \<rparr>"
  have a: "Some 1 = Some (1::nat) \<or> (Some 1 = None \<and> winRef ?m = Some 1)" by simp
  have b: "\<not> w_destroyed (windows ?m 1)" by simp
  have c: "(None :: nat option) = Some 1 \<or> (None = None \<and> winRef ?n = Some 1)" by simp
  have d: "\<not> w_destroyed (windows ?n 1)" by simp
  have "state (updateState (Some 1) ?m) =
     \<lparr> s_x = Some (num 0), s_y = Some (num 0), s_width = Some (num 800), s_height = Some (num 600),
       s_isMaximized = Some (JBool False), s_isFullScreen = Some (JBool False) \<rparr>"
    using updateState_effect [OF a b] by (cases "state (updateState (Some 1) ?m)") (simp add: isNormal_def)
  moreover have "state (updateState None ?n) =
     \<lparr> s_x = Some (num 10), s_y = Some (num 20), s_width = Some (num 300), s_height = Some (num 200),
       s_isMaximized = Some (JBool True), s_isFullScreen = Some (JBool False) \<rparr>"
    using updateState_effect [OF c d] by (cases "state (updateState None ?n)") (simp add: isNormal_def)
  ultimately show ?thesis by simp
qed

lemma stateChangeHandler_frame [simp]:
  "state (stateChangeHandler m) = state m"
  "winRef (stateChangeHandler m) = winRef m"
  "windows (stateChangeHandler m) = windows m"
  "stateChangeTimer (stateChangeHandler m) = Some (nextTimer m)"
  "nextTimer (stateChangeHandler m) = Suc (nextTimer m)"
  by (simp_all add: stateChangeHandler_def Let_def)

lemma removeAll_only: "set xs \<subseteq> {t} \<Longrightarrow> removeAll t xs = []"
  by (induction xs) auto

lemma stateChangeHandler_timers:
  "pendingInv m \<Longrightarrow> timers (stateChangeHandler m) = [nextTimer m]"
  by (cases "stateChangeTimer m")
     (simp_all add: stateChangeHandler_def Let_def pendingInv_def removeAll_only)

lemma pendingInv_stateChangeHandler: "pendingInv m \<Longrightarrow> pendingInv (stateChangeHandler m)"
  by (simp add: pendingInv_def [of "stateChangeHandler m"] stateChangeHandler_timers)

lemma pendingInv_windows [simp]: "pendingInv (m \<lparr> windows := ws \<rparr>) = pendingInv m"
  by (simp add: pendingInv_def)

lemma pendingInv_updateState [simp]: "pendingInv (updateState win m) = pendingInv m"
  by (simp add: pendingInv_def)

lemma pendingInv_fireTimer: "pendingInv m \<Longrightarrow> pendingInv (fireTimer t m)"
  by (auto simp: pendingInv_def fireTimer_def)

lemma pendingInv_manage: "pendingInv m \<Longrightarrow> manage cfg h m = Some m' \<Longrightarrow> pendingInv m'"
  by (simp add: pendingInv_def manage_Some(3,4))

lemma pendingInv_unmanage: "pendingInv m \<Longrightarrow> pendingInv (unmanage m)"
  by (cases "winRef m"; cases "stateChangeTimer m")
     (auto simp: pendingInv_def unmanage_def Let_def)

lemma pendingInv_fresh: "timers m = [] \<Longrightarrow> pendingInv m"
  by (simp add: pendingInv_def)

lemma windowMoved_simps:
  "state (windowMoved h b m) = state m"
  "winRef (windowMoved h b m) = winRef m"
  "w_bounds (windows (windowMoved h b m) h) = b"
  "w_destroyed (windows (windowMoved h b m) k) = w_destroyed (windows m k)"
  "isNormal (windows (windowMoved h b m) k) = isNormal (windows m k)"
  "pendingInv m \<Longrightarrow> pendingInv (windowMoved h b m)"
  "pendingInv m \<Longrightarrow> timers (windowMoved h b m) = [nextTimer m]"
  "stateChangeTimer (windowMoved h b m) = Some (nextTimer m)"
  by (simp_all add: windowMoved_def isNormal_def pendingInv_stateChangeHandler
      stateChangeHandler_timers)

lemma fold_windowMoved:
  assumes "pendingInv m" and "bs \<noteq> []"
  shows "state (fold (windowMoved h) bs m) = state m \<and>
         winRef (fold (windowMoved h) bs m) = winRef m \<and>
         w_bounds (windows (fold (windowMoved h) bs m) h) = last bs \<and>
         w_destroyed (windows (fold (windowMoved h) bs m) h) = w_destroyed (windows m h) \<and>
         isNormal (windows (fold (windowMoved h) bs m) h) = isNormal (windows m h) \<and>
         (\<exists>t. timers (fold (windowMoved h) bs m) = [t] \<and>
              stateChangeTimer (fold (windowMoved h) bs m) = Some t)"
  using assms
proof (induction bs arbitrary: m)
  case Nil
  then show ?case by simp
next
  case (Cons b bs)
  show ?case
  proof (cases "bs = []")
    case True
    then show ?thesis using Cons.prems(1) by (simp add: windowMoved_simps)
  next
    case False
    have "pendingInv (windowMoved h b m)" using Cons.prems(1) by (simp add: windowMoved_simps)
    from Cons.IH [OF this False] False show ?thesis
      by (simp add: windowMoved_simps)
  qed
qed

lemma runTimers_single:
  "timers m = [t] \<Longrightarrow> runTimers m = updateState None (m \<lparr> timers := [] \<rparr>)"
  by (simp add: runTimers_def fireTimer_def)

text \<open>
  Claim C9: after one or more \<open>resize\<close> or \<open>move\<close> events with no timer coming due between
  them (that is, within the delay of one another), the state has not been written yet
  and exactly one timer is pending, every earlier one having been cancelled by the next
  event; letting the pending timers run is one call of \<open>updateState\<close>, and it reads the
  window as the last event left it: for a managed window that is live and normal, the
  state then has the bounds of the last event.
\<close>

theorem debounce_single_update:
  assumes "pendingInv m" and "bs \<noteq> []"
  shows "state (fold (windowMoved h) bs m) = state m \<and>
         (\<exists>t. timers (fold (windowMoved h) bs m) = [t]) \<and>
         w_bounds (windows (fold (windowMoved h) bs m) h) = last bs \<and>
         runTimers (fold (windowMoved h) bs m) =
           updateState None ((fold (windowMoved h) bs m) \<lparr> timers := [] \<rparr>) \<and>
         timers (runTimers (fold (windowMoved h) bs m)) = [] \<and>
         (winRef m = Some h \<and> \<not> w_destroyed (windows m h) \<and> isNormal (windows m h) \<longrightarrow>
            rectOf (state (runTimers (fold (windowMoved h) bs m))) = Some (last bs))"
proof -
  let ?m' = "fold (windowMoved h) bs m"
  note f = fold_windowMoved [OF assms, of h]
  from f obtain t where t: "timers ?m' = [t]" by blast
  have run: "runTimers ?m' = updateState None (?m' \<lparr> timers := [] \<rparr>)"
    using t by (rule runTimers_single)
  have "rectOf (state (runTimers ?m')) = Some (last bs)"
    if "winRef m = Some h" "\<not> w_destroyed (windows m h)" "isNormal (windows m h)"
  proof -
    have "None = Some h \<or> ((None :: nat option) = None \<and> winRef (?m' \<lparr> timers := [] \<rparr>) = Some h)"
      using f that by simp
    moreover have "\<not> w_destroyed (windows (?m' \<lparr> timers := [] \<rparr>) h)" using f that by simp
    ultimately have "state (runTimers ?m') =
        (setRect (last bs) (state m)) \<lparr> s_isMaximized := Some (JBool (w_isMaximized (windows ?m' h))),
               s_isFullScreen := Some (JBool (w_isFullScreen (windows ?m' h))) \<rparr>"
      using f that unfolding run by (simp add: updateState_live)
    then show ?thesis by (simp add: rectOf_Some setRect_def)
  qed
  with f t run show ?thesis by simp
qed

text \<open>Witness for C9: three events on the managed window 1.\<close>

theorem debounce_single_update_witness:
  "timers (fold (windowMoved 1)
      [rectangle 0 0 810 600, rectangle 0 0 820 610, rectangle 5 5 830 620]
      ((freshMachine (geometry 0 0 800 600)) \<lparr> winRef := Some 1 \<rparr>)) = [2] \<and>
   state (fold (windowMoved 1)
      [rectangle 0 0 810 600, rectangle 0 0 820 610, rectangle 5 5 830 620]
      ((freshMachine (geometry 0 0 800 600)) \<lparr> winRef := Some 1 \<rparr>)) = geometry 0 0 800 600 \<and>
   rectOf (state (runTimers (fold (windowMoved 1)
      [rectangle 0 0 810 600, rectangle 0 0 820 610, rectangle 5 5 830 620]
      ((freshMachine (geometry 0 0 800 600)) \<lparr> winRef := Some 1 \<rparr>)))) =
     Some (rectangle 5 5 830 620)"
proof -
  let ?m = "(freshMachine (geometry 0 0 800 600)) \<lparr> winRef := Some 1 \<rparr>"
  let ?bs = "[rectangle 0 0 810 600, rectangle 0 0 820 610, rectangle 5 5 830 620]"
  have i: "pendingInv ?m" by (simp add: pendingInv_def)
  have n: "?bs \<noteq> []" by simp
  have w: "winRef ?m = Some 1 \<and> \<not> w_destroyed (windows ?m 1) \<and> isNormal (windows ?m 1)"
    by (simp add: isNormal_def)
  note d = debounce_single_update [OF i n, of 1]
  have t: "timers (fold (windowMoved 1) ?bs ?m) = [2]"
    by (simp add: windowMoved_def stateChangeHandler_def clearTimeout_def)
  have s: "state (fold (windowMoved 1) ?bs ?m) = geometry 0 0 800 600"
    using d [THEN conjunct1] by simp
  have "rectOf (state (runTimers (fold (windowMoved 1) ?bs ?m))) = Some (last ?bs)"
    using d [THEN conjunct2, THEN conjunct2, THEN conjunct2, THEN conjunct2, THEN conjunct2] w
    by (rule mp)
  then have r: "rectOf (state (runTimers (fold (windowMoved 1) ?bs ?m))) = Some (rectangle 5 5 830 620)"
    by simp
  from t s r show ?thesis by (intro conjI)
qed

end
